theory Spec2Isabelle
  imports Main
begin

section \<open>Errors, outcomes and the outside world\<close>

text \<open>
  The Go code reports failures as \<^verbatim>\<open>error\<close> values built with \<^verbatim>\<open>fmt.Errorf\<close> and
  \<^verbatim>\<open>errors.New\<close>. Each place that creates an error is a constructor here; \<open>Wrap\<close> is
  \<^verbatim>\<open>fmt.Errorf("<context>: %w", err)\<close>, and \<open>Message\<close> is an error whose text is a raw
  response body or websocket message (\<^verbatim>\<open>fmt.Errorf(string(body))\<close>).
\<close>

datatype error =
    TransportError
  | BodyReadError
  | StatusError nat string
  | UnmarshalError string
  | DecodeError
  | NoToken
  | NotSupported string
  | UnexpectedStatus nat
  | CreateTempError
  | CopyError
  | OpenError
  | URLParseError
  | XMLError
  | Message string
  | DialError
  | ReadMessageError
  | ContextError
  | Invalid string
  | Wrap string error

text \<open>
  A public operation either returns a value, returns an error, panics (an index out of
  range) or is still blocked when the observed schedule ends.
\<close>

datatype 'a outcome = Returns 'a | Fails error | Panics | Blocks

text \<open>
  The requests the client sends, by endpoint, with the fields the code fills in. The
  bearer token of the \<^verbatim>\<open>Authorization\<close> header is the first argument of the
  authenticated requests.
\<close>

text \<open>
  The gallery payload: one item per path (a slot of \<^verbatim>\<open>items\<close> is \<open>None\<close> until its upload
  has written it, as the nil map of \<^verbatim>\<open>make\<close>), the flags as the strings of
  \<^verbatim>\<open>strconv.FormatBool\<close>, and the two flair keys, which are present only when set.
\<close>

record item =
  caption :: string
  outbound_url :: string
  media_id :: string

record payload =
  sr :: string
  title :: string
  items :: "item option list"
  nsfw :: string
  sendreplies :: string
  spoiler :: string
  api_type :: string
  show_error_list :: bool
  validate_on_submit :: bool
  flair_id :: "string option"
  flair_text :: "string option"

datatype request =
    TokenRequest string string string string string
  | Get string
  | LeaseRequest string string string
  | UploadRequest string "(string \<times> string) list" string
  | SubmitRequest string "(string \<times> string) list"
  | GalleryRequest string payload

datatype reply = NoReply | Truncated nat | Reply nat string

datatype call = Http request | Dial string

text \<open>The decoded lease (\<^verbatim>\<open>assetLeaseResponse\<close>) and the uploaded asset.\<close>

record assetLeaseResponse =
  Action :: string
  Fields :: "(string \<times> string) list"
  AssedID :: string
  WebsocketURL :: string

record asset =
  ID :: string
  Location :: string
  WebSocket :: string

text \<open>
  Everything the program reads from outside is a field of the environment: the HTTP
  client (\<open>http_do\<close>: what \<^verbatim>\<open>client.Do\<close> and reading the body give for a request), the
  URL parsers of \<^verbatim>\<open>net/url\<close>, the file system, the JSON and XML decoders, and the
  websocket dialer. \<open>Truncated\<close> is a response whose status line arrived and whose body
  cannot be read to its end.
\<close>

record env =
  http_do :: "request \<Rightarrow> reply"
  parse_request_uri :: "string \<Rightarrow> bool"
  url_parse :: "string \<Rightarrow> (string \<times> string) option"
  create_temp :: "string \<Rightarrow> string option"
  os_open :: "string \<Rightarrow> bool"
  read_file :: "string \<Rightarrow> bool"
  decode_token :: "string \<Rightarrow> string option"
  unmarshal_lease :: "string \<Rightarrow> assetLeaseResponse option"
  unmarshal_location :: "string \<Rightarrow> string option"
  unmarshal_gallery :: "string \<Rightarrow> string option"
  ws_dial :: "string \<Rightarrow> bool"

text \<open>
  The \<^verbatim>\<open>reddit\<close> struct (the monolithic \<^verbatim>\<open>client\<close> struct has the same fields), extended
  with what the operations do to the world: the network calls made so far, in order,
  and the staged temporary files that exist.
\<close>

record reddit =
  clientID :: string
  secret :: string
  username :: string
  password :: string
  userAgent :: string
  accessToken :: string

record state = reddit +
  calls :: "call list"
  staged :: "string list"

definition record_call :: "call \<Rightarrow> state \<Rightarrow> state" where
  "record_call c s = s\<lparr>calls := calls s @ [c]\<rparr>"

definition os_Remove :: "string \<Rightarrow> state \<Rightarrow> state" where
  "os_Remove name s = s\<lparr>staged := remove1 name (staged s)\<rparr>"

section \<open>Library functions: strings.Split, filepath.Base, filepath.Ext\<close>

text \<open>
  \<^verbatim>\<open>strings.Split(s, "/")\<close>: the substrings between the separators, so a string with
  \<open>n\<close> separators has \<open>n + 1\<close> components and the empty string has one.
\<close>

fun Split :: "string \<Rightarrow> char \<Rightarrow> string list" where
  "Split [] sep = [[]]"
| "Split (c # cs) sep =
     (if c = sep then [] # Split cs sep
      else (case Split cs sep of
              [] \<Rightarrow> [[c]]
            | x # xs \<Rightarrow> (c # x) # xs))"

text \<open>
  \<^verbatim>\<open>filepath.Base\<close> on a slash-separated path: trailing slashes are dropped, the last
  element is returned, \<^verbatim>\<open>"."\<close> for the empty path and \<^verbatim>\<open>"/"\<close> for a path of slashes.
  \<^verbatim>\<open>filepath.Ext\<close>: the suffix of the last element that starts at its last dot.
\<close>

definition Base :: "string \<Rightarrow> string" where
  "Base path =
     (if path = [] then ''.''
      else let p = rev (dropWhile (\<lambda>c. c = CHR ''/'') (rev path));
               e = rev (takeWhile (\<lambda>c. c \<noteq> CHR ''/'') (rev p))
           in if e = [] then ''/'' else e)"

definition Ext :: "string \<Rightarrow> string" where
  "Ext path =
     (let e = takeWhile (\<lambda>c. c \<noteq> CHR ''/'') (rev path)
      in if CHR ''.'' \<in> set e then CHR ''.'' # rev (takeWhile (\<lambda>c. c \<noteq> CHR ''.'') e)
         else [])"

definition mimeTypes :: "string \<Rightarrow> string option" where
  "mimeTypes = map_of
     [(''.png'', ''image/png''),
      (''.mov'', ''video/quicktime''),
      (''.mp4'', ''video/mp4''),
      (''.jpg'', ''image/jpeg''),
      (''.jpeg'', ''image/jpeg''),
      (''.gif'', ''image/gif'')]"

section \<open>Shared plumbing: isValidURL, doRequest, downloadLink, SetToken\<close>

definition isValidURL :: "env \<Rightarrow> string \<Rightarrow> bool" where
  "isValidURL w toTest =
     (if \<not> parse_request_uri w toTest then False
      else case url_parse w toTest of
             None \<Rightarrow> False
           | Some (scheme, host) \<Rightarrow> if scheme = [] then False else host \<noteq> [])"

text \<open>
  \<^verbatim>\<open>doRequest\<close>: the request is sent; a transport error, an unreadable body and a status
  other than 200 and 201 are errors; then the body is decoded into \<^verbatim>\<open>v\<close> when \<^verbatim>\<open>v\<close> is
  not nil. A nil \<^verbatim>\<open>v\<close> is the decoder \<open>no_decode\<close>, which reads nothing and cannot fail.
  (\<^verbatim>\<open>http.NewRequestWithContext\<close> fails only on a URL that does not parse; every URL
  passed to it here is a constant or has been parsed before.)
\<close>

definition no_decode :: "string \<Rightarrow> unit option" where
  "no_decode body = Some ()"

definition doRequest ::
  "env \<Rightarrow> state \<Rightarrow> request \<Rightarrow> (string \<Rightarrow> 'a option) \<Rightarrow> (error + string \<times> 'a) \<times> state" where
  "doRequest w s r unmarshal =
     (let s' = record_call (Http r) s in
      case http_do w r of
        NoReply \<Rightarrow> (Inl TransportError, s')
      | Truncated code \<Rightarrow> (Inl BodyReadError, s')
      | Reply code respBytes \<Rightarrow>
          if code \<noteq> 200 \<and> code \<noteq> 201 then (Inl (StatusError code respBytes), s')
          else (case unmarshal respBytes of
                  None \<Rightarrow> (Inl (UnmarshalError respBytes), s')
                | Some v \<Rightarrow> (Inr (respBytes, v), s')))"

text \<open>What \<^verbatim>\<open>doRequest\<close> returns, apart from the state: it depends on the request only.\<close>

definition answer :: "env \<Rightarrow> request \<Rightarrow> (string \<Rightarrow> 'a option) \<Rightarrow> error + string \<times> 'a" where
  "answer w r unmarshal =
     (case http_do w r of
        NoReply \<Rightarrow> Inl TransportError
      | Truncated code \<Rightarrow> Inl BodyReadError
      | Reply code respBytes \<Rightarrow>
          if code \<noteq> 200 \<and> code \<noteq> 201 then Inl (StatusError code respBytes)
          else (case unmarshal respBytes of
                  None \<Rightarrow> Inl (UnmarshalError respBytes)
                | Some v \<Rightarrow> Inr (respBytes, v)))"

text \<open>
  \<^verbatim>\<open>downloadLink\<close>: GET the link, require status 200, create the temporary file, copy
  the body into it. The file exists from \<^verbatim>\<open>os.CreateTemp\<close> on, also when the copy fails.
\<close>

definition downloadLink :: "env \<Rightarrow> state \<Rightarrow> string \<Rightarrow> (error + string) \<times> state" where
  "downloadLink w s link =
     (let s' = record_call (Http (Get link)) s in
      case http_do w (Get link) of
        NoReply \<Rightarrow> (Inl TransportError, s')
      | Truncated code \<Rightarrow>
          if code \<noteq> 200 then (Inl (UnexpectedStatus code), s')
          else (case create_temp w link of
                  None \<Rightarrow> (Inl CreateTempError, s')
                | Some name \<Rightarrow> (Inl CopyError, s'\<lparr>staged := name # staged s'\<rparr>))
      | Reply code body \<Rightarrow>
          if code \<noteq> 200 then (Inl (UnexpectedStatus code), s')
          else (case create_temp w link of
                  None \<Rightarrow> (Inl CreateTempError, s')
                | Some name \<Rightarrow> (Inr name, s'\<lparr>staged := name # staged s'\<rparr>)))"

text \<open>
  \<^verbatim>\<open>SetToken\<close> (and the monolith's \<^verbatim>\<open>setToken\<close>, which has the same body): the
  password-grant exchange. The response's status is never read: the body is decoded
  whatever the status, and a non-empty \<^verbatim>\<open>access_token\<close> is stored.
\<close>

definition SetToken :: "env \<Rightarrow> state \<Rightarrow> error option \<times> state" where
  "SetToken w s =
     (let req = TokenRequest (userAgent s) (clientID s) (secret s) (username s) (password s);
          s' = record_call (Http req) s in
      case http_do w req of
        NoReply \<Rightarrow> (Some TransportError, s')
      | Truncated code \<Rightarrow> (Some DecodeError, s')
      | Reply code body \<Rightarrow>
          (case decode_token w body of
             None \<Rightarrow> (Some DecodeError, s')
           | Some t \<Rightarrow> if t = [] then (Some NoToken, s')
                       else (None, s'\<lparr>accessToken := t\<rparr>)))"

section \<open>Uploading one asset\<close>

text \<open>
  The part of \<^verbatim>\<open>UploadAsset\<close> after the staging: resolve the content type from the
  extension of the base name of the \<^emph>\<open>source\<close> path, negotiate the lease, open the file
  at \<open>assetPath\<close>, post the multipart body, and read the Location of the storage
  response. \<open>checked\<close> tells the two versions apart: the current one decodes the XML
  inside \<^verbatim>\<open>doRequest\<close> and refuses an empty Location; the earlier one (and the monolith's
  \<^verbatim>\<open>uploadMedia\<close>) decodes it after \<^verbatim>\<open>doRequest\<close> and returns whatever Location it
  found. (Writing the form fields into a \<^verbatim>\<open>bytes.Buffer\<close> cannot fail.)
\<close>

definition transfer ::
  "bool \<Rightarrow> env \<Rightarrow> state \<Rightarrow> string \<Rightarrow> string \<Rightarrow> (error + asset) \<times> state" where
  "transfer checked w s path assetPath =
     (let fileName = Base path; ext = Ext fileName in
      case mimeTypes ext of
        None \<Rightarrow> (Inl (NotSupported ext), s)
      | Some mimeType \<Rightarrow>
          (case doRequest w s (LeaseRequest (accessToken s) fileName mimeType) (unmarshal_lease w) of
             (Inl e, s1) \<Rightarrow> (Inl e, s1)
           | (Inr (body, ar), s1) \<Rightarrow>
               (case url_parse w (''https:'' @ Action ar) of
                  None \<Rightarrow> (Inl URLParseError, s1)
                | Some u \<Rightarrow>
                    if \<not> os_open w assetPath then (Inl OpenError, s1)
                    else if \<not> read_file w assetPath then (Inl CopyError, s1)
                    else let up = UploadRequest (''https:'' @ Action ar) (Fields ar) fileName in
                      if checked then
                        (case doRequest w s1 up (unmarshal_location w) of
                           (Inl e, s2) \<Rightarrow> (Inl e, s2)
                         | (Inr (respBody, loc), s2) \<Rightarrow>
                             if loc = [] then
                               (Inl (Wrap ''uploading asset to lease'' (Message respBody)), s2)
                             else (Inr \<lparr>ID = AssedID ar, Location = loc,
                                        WebSocket = WebsocketURL ar\<rparr>, s2))
                      else
                        (case doRequest w s1 up no_decode of
                           (Inl e, s2) \<Rightarrow> (Inl e, s2)
                         | (Inr (respBody, u), s2) \<Rightarrow>
                             (case unmarshal_location w respBody of
                                None \<Rightarrow> (Inl XMLError, s2)
                              | Some loc \<Rightarrow>
                                  (Inr \<lparr>ID = AssedID ar, Location = loc,
                                        WebSocket = WebsocketURL ar\<rparr>, s2))))))"

text \<open>
  \<^verbatim>\<open>UploadAsset\<close>: a source that is a URL is downloaded first, and the staged file is
  removed by a deferred \<^verbatim>\<open>os.Remove\<close> on every return after that point.
\<close>

definition upload_with_staging ::
  "bool \<Rightarrow> env \<Rightarrow> state \<Rightarrow> string \<Rightarrow> (error + asset) \<times> state" where
  "upload_with_staging checked w s path =
     (if isValidURL w path then
        (case downloadLink w s path of
           (Inl e, s1) \<Rightarrow> (Inl (Wrap (''downloading '' @ path) e), s1)
         | (Inr assetPath, s1) \<Rightarrow>
             (case transfer checked w s1 path assetPath of
                (r, s2) \<Rightarrow> (r, os_Remove assetPath s2)))
      else transfer checked w s path path)"

definition UploadAsset :: "env \<Rightarrow> state \<Rightarrow> string \<Rightarrow> (error + asset) \<times> state" where
  "UploadAsset = upload_with_staging True"

definition UploadAsset_unchecked :: "env \<Rightarrow> state \<Rightarrow> string \<Rightarrow> (error + asset) \<times> state" where
  "UploadAsset_unchecked = upload_with_staging False"

definition uploadMedia :: "env \<Rightarrow> state \<Rightarrow> string \<Rightarrow> (error + asset) \<times> state" where
  "uploadMedia w s path = transfer False w s path path"

section \<open>Waiting for the completion message\<close>

text \<open>
  A decoded completion message (\<^verbatim>\<open>wsResponse\<close>, with \<^verbatim>\<open>Payload.Redirect\<close> flattened), and
  what the connection delivers next: a read error, bytes that do not decode, or bytes
  with their decoding.
\<close>

record wsResponse =
  Type :: string
  Redirect :: string

datatype frame = Unreadable | Undecodable string | Decoded string wsResponse

text \<open>
  The two versions of the listener differ in one test. The monolith and the first
  \<^verbatim>\<open>reddit\<close> type fail on \<^verbatim>\<open>wr.Type == "failed" || wr.Payload.Redirect == ""\<close>; the
  current \<^verbatim>\<open>reddit\<close> type fails on \<^verbatim>\<open>wr.Type != "success" || wr.Payload.Redirect == ""\<close>.
\<close>

datatype policy = TypeFailed | TypeNotSuccess

definition terminal_failure :: "policy \<Rightarrow> wsResponse \<Rightarrow> bool" where
  "terminal_failure p wr =
     (case p of
        TypeFailed \<Rightarrow> Type wr = ''failed'' \<or> Redirect wr = []
      | TypeNotSuccess \<Rightarrow> Type wr \<noteq> ''success'' \<or> Redirect wr = [])"

text \<open>
  The value sent on \<^verbatim>\<open>msgCh\<close>; a receive from the closed channel yields \<open>zero_msg\<close>.
\<close>

record msg =
  msg_value :: string
  msg_err :: "error option"

definition zero_msg :: msg where
  "zero_msg = \<lparr>msg_value = [], msg_err = None\<rparr>"

text \<open>
  One turn of the listener's loop after its cancellation check: the message it sends,
  and whether the goroutine returns after sending (it returns after every error and
  loops again after a success).
\<close>

definition listen :: "policy \<Rightarrow> frame \<Rightarrow> msg \<times> bool" where
  "listen p f =
     (case f of
        Unreadable \<Rightarrow>
          (\<lparr>msg_value = [], msg_err = Some (Wrap ''reading websocket message'' ReadMessageError)\<rparr>, True)
      | Undecodable message \<Rightarrow>
          (\<lparr>msg_value = [],
            msg_err = Some (Wrap ''unmarshalling websocket message'' (UnmarshalError message))\<rparr>, True)
      | Decoded message wr \<Rightarrow>
          if terminal_failure p wr then
            (\<lparr>msg_value = [],
              msg_err = Some (Wrap ''waiting for media upload success'' (Message message))\<rparr>, True)
          else (\<lparr>msg_value = Redirect wr, msg_err = None\<rparr>, False))"

text \<open>What the waiter's \<^verbatim>\<open>select\<close> returns for a received message.\<close>

definition received :: "msg \<Rightarrow> error + string" where
  "received m = (case msg_err m of Some e \<Rightarrow> Inl e | None \<Rightarrow> Inr (msg_value m))"

text \<open>
  The waiter and its listener goroutine run concurrently, so the model is a transition
  system. Its state: whether the context is done, whether \<^verbatim>\<open>ws.Close()\<close> has run, the
  frames that have arrived and are not read yet, where the listener stands (at its
  \<^verbatim>\<open>ctx.Err()\<close> check, in \<^verbatim>\<open>ReadMessage\<close>, blocked in a send on the unbuffered channel,
  or returned), whether \<^verbatim>\<open>msgCh\<close> is closed (the listener's deferred \<^verbatim>\<open>close\<close>), and
  what the waiter has returned.
\<close>

datatype listener = Checking | Reading | Sending msg bool | Finished

record ws =
  ctx_done :: bool
  conn_closed :: bool
  inbox :: "frame list"
  at :: listener
  chan_closed :: bool
  returned :: "(error + string) option"

definition ws_init :: ws where
  "ws_init = \<lparr>ctx_done = False, conn_closed = False, inbox = [], at = Checking,
              chan_closed = False, returned = None\<rparr>"

text \<open>
  The atomic steps. \<open>Cancel\<close>: the caller's context is cancelled or its deadline passes.
  \<open>Arrive f\<close>: the network delivers a frame. \<open>Listen\<close>: the listener advances (its check,
  or a read; a read on a closed connection is a read error; a read with nothing to read,
  a send nobody receives and a finished listener are blocked). \<open>SelectMsg\<close>: the
  waiter's \<^verbatim>\<open>select\<close> takes the \<^verbatim>\<open>msgCh\<close> case, which is ready when the listener is
  sending or the channel is closed. \<open>SelectDone\<close>: the \<^verbatim>\<open>select\<close> takes the
  \<^verbatim>\<open>ctx.Done()\<close> case. Either return of the waiter runs its deferred \<^verbatim>\<open>ws.Close()\<close>.
  \<open>None\<close> means the step is not enabled.
\<close>

datatype action = Cancel | Arrive frame | Listen | SelectMsg | SelectDone

definition listener_step :: "policy \<Rightarrow> ws \<Rightarrow> ws option" where
  "listener_step p s =
     (case at s of
        Checking \<Rightarrow>
          if ctx_done s then Some (s\<lparr>at := Finished, chan_closed := True\<rparr>)
          else Some (s\<lparr>at := Reading\<rparr>)
      | Reading \<Rightarrow>
          if conn_closed s then Some (s\<lparr>at := Sending (fst (listen p Unreadable)) True\<rparr>)
          else (case inbox s of
                  [] \<Rightarrow> None
                | f # fs \<Rightarrow>
                    Some (s\<lparr>inbox := fs, at := Sending (fst (listen p f)) (snd (listen p f))\<rparr>))
      | Sending m fin \<Rightarrow> None
      | Finished \<Rightarrow> None)"

definition select_msg :: "ws \<Rightarrow> ws option" where
  "select_msg s =
     (if returned s \<noteq> None then None
      else case at s of
             Sending m fin \<Rightarrow>
               Some (s\<lparr>returned := Some (received m), conn_closed := True,
                       at := (if fin then Finished else Checking), chan_closed := fin\<rparr>)
           | Checking \<Rightarrow> None
           | Reading \<Rightarrow> None
           | Finished \<Rightarrow>
               if chan_closed s
               then Some (s\<lparr>returned := Some (received zero_msg), conn_closed := True\<rparr>)
               else None)"

definition select_done :: "ws \<Rightarrow> ws option" where
  "select_done s =
     (if returned s \<noteq> None then None
      else if ctx_done s then Some (s\<lparr>returned := Some (Inl ContextError), conn_closed := True\<rparr>)
      else None)"

fun step :: "policy \<Rightarrow> action \<Rightarrow> ws \<Rightarrow> ws option" where
  "step p Cancel s = Some (s\<lparr>ctx_done := True\<rparr>)"
| "step p (Arrive f) s = Some (s\<lparr>inbox := inbox s @ [f]\<rparr>)"
| "step p Listen s = listener_step p s"
| "step p SelectMsg s = select_msg s"
| "step p SelectDone s = select_done s"

text \<open>
  A schedule is a list of actions; an action that is not enabled when its turn comes
  does not happen. Every interleaving of the two goroutines with the network and the
  caller's cancellation is the run of some schedule.
\<close>

fun exec :: "policy \<Rightarrow> action list \<Rightarrow> ws \<Rightarrow> ws" where
  "exec p [] s = s"
| "exec p (a # as) s = (case step p a s of None \<Rightarrow> exec p as s | Some s' \<Rightarrow> exec p as s')"

text \<open>
  \<^verbatim>\<open>waitForPostSuccess\<close>: nothing to do for an empty address; otherwise dial (the dial
  does not take the context), start the listener and wait in the \<^verbatim>\<open>select\<close>. The
  result is \<open>Blocks\<close> when the waiter has not returned by the end of the schedule.
\<close>

definition waitForPostSuccess ::
  "policy \<Rightarrow> env \<Rightarrow> action list \<Rightarrow> state \<Rightarrow> string \<Rightarrow> string outcome \<times> state" where
  "waitForPostSuccess p w sched s url =
     (if url = [] then (Returns [], s)
      else let s' = record_call (Dial url) s in
        if \<not> ws_dial w url then (Fails (Wrap ''dialing websocket connection'' DialError), s')
        else (case returned (exec p sched ws_init) of
                None \<Rightarrow> (Blocks, s')
              | Some (Inl e) \<Rightarrow> (Fails e, s')
              | Some (Inr redirect) \<Rightarrow> (Returns redirect, s')))"

section \<open>Submitting a post\<close>

text \<open>
  The last two lines of \<^verbatim>\<open>SubmitPost\<close> and of the monolith's \<^verbatim>\<open>PostImage\<close> and
  \<^verbatim>\<open>PostVideo\<close>: split the redirect at the slashes and format the component at index
  \<^verbatim>\<open>len(split)-3\<close> after a tag. Go panics when that index is negative. \<^verbatim>\<open>SubmitPost\<close>
  formats with \<^verbatim>\<open>"t3_%s"\<close>, the monolith with \<^verbatim>\<open>"t3%s"\<close>.
\<close>

definition fullname :: "string \<Rightarrow> string \<Rightarrow> string outcome" where
  "fullname tag redirect =
     (let split = Split redirect CHR ''/'' in
      if length split < 3 then Panics
      else Returns (tag @ split ! (length split - 3)))"

definition SubmitPost ::
  "policy \<Rightarrow> env \<Rightarrow> action list \<Rightarrow> state \<Rightarrow> string \<Rightarrow> (string \<times> string) list
     \<Rightarrow> string outcome \<times> state" where
  "SubmitPost p w sched s websocketURL body =
     (case doRequest w s (SubmitRequest (accessToken s) body) no_decode of
        (Inl e, s1) \<Rightarrow> (Fails (Wrap ''executing submission request'' e), s1)
      | (Inr ok, s1) \<Rightarrow>
          (case waitForPostSuccess p w sched s1 websocketURL of
             (Returns redirect, s2) \<Rightarrow> (fullname ''t3_'' redirect, s2)
           | (Fails e, s2) \<Rightarrow> (Fails (Wrap ''waiting for post success'' e), s2)
           | (Panics, s2) \<Rightarrow> (Panics, s2)
           | (Blocks, s2) \<Rightarrow> (Blocks, s2)))"


section \<open>The request values\<close>

text \<open>
  The gallery request of the current client, and the image and video requests of the
  monolithic client. Field names that the structs share are written with the record's
  name where they mean the gallery request's.
\<close>

record PostGalleryRequest =
  FlairID :: string
  FlairText :: string
  NSWF :: bool
  Paths :: "string list"
  SendReplies :: bool
  Spoiler :: bool
  Subreddit :: string
  Title :: string

record PostImageRequest =
  NSWF :: bool
  Path :: string
  Resubmit :: bool
  SendReplies :: bool
  Spoiler :: bool
  Subreddit :: string
  Title :: string

text \<open>\<^verbatim>\<open>PostVideoRequest\<close> has the fields of \<^verbatim>\<open>PostImageRequest\<close> and two more.\<close>

record PostVideoRequest = PostImageRequest +
  Kind :: string
  ThumbnailPath :: string

section \<open>The monolithic client: PostImage and PostVideo\<close>

definition FormatBool :: "bool \<Rightarrow> string" where
  "FormatBool b = (if b then ''true'' else ''false'')"

text \<open>
  The staging step that the operations repeat: a path that is a URL is downloaded, and
  \<^verbatim>\<open>didDownload\<close> is set; any other path is used as it is.
\<close>

definition stage :: "env \<Rightarrow> state \<Rightarrow> string \<Rightarrow> (error + string \<times> bool) \<times> state" where
  "stage w s path =
     (if isValidURL w path then
        (case downloadLink w s path of
           (Inl e, s1) \<Rightarrow> (Inl e, s1)
         | (Inr mediaPath, s1) \<Rightarrow> (Inr (mediaPath, True), s1))
      else (Inr (path, False), s))"

text \<open>
  A deferred \<^verbatim>\<open>os.Remove\<close> runs when the function returns or panics; it has not run
  while the function is still blocked.
\<close>

definition deferred_Remove :: "string \<Rightarrow> 'a outcome \<times> state \<Rightarrow> 'a outcome \<times> state" where
  "deferred_Remove name rs =
     (case fst rs of
        Blocks \<Rightarrow> rs
      | Returns v \<Rightarrow> (fst rs, os_Remove name (snd rs))
      | Fails e \<Rightarrow> (fst rs, os_Remove name (snd rs))
      | Panics \<Rightarrow> (fst rs, os_Remove name (snd rs)))"

text \<open>
  The end of \<^verbatim>\<open>PostImage\<close> and \<^verbatim>\<open>PostVideo\<close> in the monolith: post the form, wait for the
  completion message, and format the identifier with \<^verbatim>\<open>"t3%s"\<close>.
\<close>

definition submit_mono ::
  "env \<Rightarrow> action list \<Rightarrow> state \<Rightarrow> string \<Rightarrow> (string \<times> string) list \<Rightarrow> string outcome \<times> state" where
  "submit_mono w sched s websocketURL form =
     (case doRequest w s (SubmitRequest (accessToken s) form) no_decode of
        (Inl e, s1) \<Rightarrow> (Fails (Wrap ''executing submission request'' e), s1)
      | (Inr ok, s1) \<Rightarrow>
          (case waitForPostSuccess TypeFailed w sched s1 websocketURL of
             (Returns redirect, s2) \<Rightarrow> (fullname ''t3'' redirect, s2)
           | (Fails e, s2) \<Rightarrow> (Fails (Wrap ''waiting for post success'' e), s2)
           | (Panics, s2) \<Rightarrow> (Panics, s2)
           | (Blocks, s2) \<Rightarrow> (Blocks, s2)))"

definition image_rest ::
  "env \<Rightarrow> action list \<Rightarrow> state \<Rightarrow> PostImageRequest \<Rightarrow> string \<Rightarrow> string outcome \<times> state" where
  "image_rest w sched s req mediaPath =
     (case uploadMedia w s mediaPath of
        (Inl e, s1) \<Rightarrow> (Fails (Wrap (''uploading '' @ Path req) e), s1)
      | (Inr a, s1) \<Rightarrow>
          submit_mono w sched s1 (WebSocket a)
            [(''kind'', ''image''),
             (''sr'', Subreddit req),
             (''title'', Title req),
             (''url'', Location a),
             (''nsfw'', FormatBool (NSWF req)),
             (''resubmit'', FormatBool (Resubmit req)),
             (''sendreplies'', FormatBool (SendReplies req)),
             (''spoiler'', FormatBool (Spoiler req))])"

definition PostImage_mono ::
  "env \<Rightarrow> action list \<Rightarrow> state \<Rightarrow> PostImageRequest \<Rightarrow> string outcome \<times> state" where
  "PostImage_mono w sched s req =
     (if Path req = [] then (Fails (Invalid ''must proivde a local path or link to image''), s)
      else case SetToken w s of
             (Some e, s1) \<Rightarrow> (Fails (Wrap ''setting oauth token'' e), s1)
           | (None, s1) \<Rightarrow>
               (case stage w s1 (Path req) of
                  (Inl e, s2) \<Rightarrow> (Fails (Wrap (''downloading '' @ Path req) e), s2)
                | (Inr (mediaPath, didDownload), s2) \<Rightarrow>
                    if didDownload then deferred_Remove mediaPath (image_rest w sched s2 req mediaPath)
                    else image_rest w sched s2 req mediaPath))"

definition video_rest ::
  "env \<Rightarrow> action list \<Rightarrow> state \<Rightarrow> PostVideoRequest \<Rightarrow> string \<Rightarrow> string
     \<Rightarrow> string outcome \<times> state" where
  "video_rest w sched s req mediaPath thumbnailPath =
     (case uploadMedia w s mediaPath of
        (Inl e, s1) \<Rightarrow> (Fails (Wrap (''uploading '' @ Path req) e), s1)
      | (Inr a, s1) \<Rightarrow>
          (case uploadMedia w s1 thumbnailPath of
             (Inl e, s2) \<Rightarrow> (Fails (Wrap (''uploading '' @ ThumbnailPath req) e), s2)
           | (Inr t, s2) \<Rightarrow>
               submit_mono w sched s2 (WebSocket a)
                 [(''kind'', Kind req),
                  (''sr'', Subreddit req),
                  (''title'', Title req),
                  (''url'', Location a),
                  (''video_poster_url'', Location t),
                  (''nsfw'', FormatBool (NSWF req)),
                  (''resubmit'', FormatBool (Resubmit req)),
                  (''sendreplies'', FormatBool (SendReplies req)),
                  (''spoiler'', FormatBool (Spoiler req))]))"

text \<open>
  \<^verbatim>\<open>PostVideo\<close> stages the video, then the thumbnail, and only then registers the two
  deferred removals: the return on a failed thumbnail download comes before them.
\<close>

definition PostVideo_mono ::
  "env \<Rightarrow> action list \<Rightarrow> state \<Rightarrow> PostVideoRequest \<Rightarrow> string outcome \<times> state" where
  "PostVideo_mono w sched s req =
     (if Kind req \<noteq> ''video'' \<and> Kind req \<noteq> ''videogif'' then
        (Fails (Invalid ''kind must be video or videogif''), s)
      else if ThumbnailPath req = [] then
        (Fails (Invalid ''must provide a local path or link to thumbnail''), s)
      else case SetToken w s of
             (Some e, s1) \<Rightarrow> (Fails (Wrap ''setting oauth token'' e), s1)
           | (None, s1) \<Rightarrow>
               (case stage w s1 (Path req) of
                  (Inl e, s2) \<Rightarrow> (Fails (Wrap (''downloading '' @ Path req) e), s2)
                | (Inr (mediaPath, didDownload), s2) \<Rightarrow>
                    (case stage w s2 (ThumbnailPath req) of
                       (Inl e, s3) \<Rightarrow> (Fails (Wrap (''downloading '' @ Path req) e), s3)
                     | (Inr (thumbnailPath, didThumbnailDownload), s3) \<Rightarrow>
                         (let rs = video_rest w sched s3 req mediaPath thumbnailPath;
                              rs1 = (if didThumbnailDownload then deferred_Remove thumbnailPath rs
                                     else rs)
                          in if didDownload then deferred_Remove mediaPath rs1 else rs1))))"

section \<open>The gallery\<close>






section \<open>Sets of states of the waiter\<close>

text \<open>
  The invariants used below. \<open>closes\<close>: a waiter that has returned has closed the
  connection. \<open>idle\<close>: nothing has arrived, the context is live, and the listener is at
  its check or blocked in its read. \<open>in_read\<close>: idle, with the listener past its check.
  \<open>decided p f\<close>: the first frame that arrived is \<open>f\<close>, the context is live, and the
  waiter either has returned what the listener makes of \<open>f\<close> or has not returned yet.
  \<open>awaiting\<close>: the context is done, nothing has arrived, the listener is past its check,
  and the waiter has either not returned or returned the context's error. \<open>answered\<close>:
  awaiting, and returned.
\<close>

definition closes :: "ws \<Rightarrow> bool" where
  "closes t = (if returned t = None then True else conn_closed t)"

definition idle :: "ws \<Rightarrow> bool" where
  "idle t \<longleftrightarrow> returned t = None \<and> \<not> ctx_done t \<and> \<not> chan_closed t \<and> \<not> conn_closed t
     \<and> inbox t = [] \<and> (at t = Checking \<or> at t = Reading)"

definition in_read :: "ws \<Rightarrow> bool" where
  "in_read t \<longleftrightarrow> idle t \<and> at t = Reading"

definition decided :: "policy \<Rightarrow> frame \<Rightarrow> ws \<Rightarrow> bool" where
  "decided p f t \<longleftrightarrow>
     returned t = Some (received (fst (listen p f)))
     \<or> (returned t = None \<and> \<not> ctx_done t \<and> \<not> chan_closed t \<and> \<not> conn_closed t
        \<and> ((at t = Checking \<or> at t = Reading) \<and> (\<exists>fs. inbox t = f # fs)
            \<or> at t = Sending (fst (listen p f)) (snd (listen p f))))"

definition awaiting :: "ws \<Rightarrow> bool" where
  "awaiting t \<longleftrightarrow> ctx_done t \<and> inbox t = [] \<and> \<not> chan_closed t
     \<and> (returned t = None \<and> at t = Reading \<and> \<not> conn_closed t
        \<or> returned t = Some (Inl ContextError) \<and> conn_closed t
          \<and> (at t = Reading \<or> (\<exists>m. at t = Sending m True)))"

definition answered :: "ws \<Rightarrow> bool" where
  "answered t \<longleftrightarrow> awaiting t \<and> returned t = Some (Inl ContextError)"

section \<open>A concrete environment: the servers of the test suite\<close>

text \<open>
  The stub servers of \<^verbatim>\<open>redmed_test.go\<close>: the token endpoint hands out a token, the lease
  endpoint one field, the asset id 123 and a websocket address, the storage endpoint
  answers 201 with a Location, the submission endpoint answers 200, and the websocket
  server sends one success message whose redirect is the one of the tests. The bodies
  are named rather than spelled out, since the decoders are part of the environment.
\<close>

definition test_lease :: assetLeaseResponse where
  "test_lease = \<lparr>Action = ''//127.0.0.1:1'', Fields = [(''name'', ''value'')],
                 AssedID = ''123'', WebsocketURL = ''wss://127.0.0.1:2''\<rparr>"

definition test_http :: "request \<Rightarrow> reply" where
  "test_http r =
     (case r of
        TokenRequest ua cid sec usr pwd \<Rightarrow> Reply 200 ''token-body''
      | Get link \<Rightarrow> Reply 200 ''image-bytes''
      | LeaseRequest tok name mime \<Rightarrow> Reply 200 ''lease-body''
      | UploadRequest url echoed name \<Rightarrow> Reply 201 ''location-body''
      | SubmitRequest tok form \<Rightarrow> Reply 200 []
      | GalleryRequest tok body \<Rightarrow> Reply 200 ''gallery-body'')"

definition test_env :: env where
  "test_env =
     \<lparr>http_do = test_http,
      parse_request_uri = (\<lambda>p. take 8 p = ''https://''),
      url_parse = (\<lambda>p. if take 8 p = ''https://'' then Some (''https'', drop 8 p)
                        else Some ([], [])),
      create_temp = (\<lambda>link. Some (''/tmp/redmed1'' @ Ext link)),
      os_open = (\<lambda>p. True),
      read_file = (\<lambda>p. True),
      decode_token = (\<lambda>b. if b = ''token-body'' then Some ''token'' else Some []),
      unmarshal_lease = (\<lambda>b. Some test_lease),
      unmarshal_location = (\<lambda>b. if b = ''location-body'' then Some ''https://store/obj''
                                 else Some []),
      unmarshal_gallery = (\<lambda>b. Some ''t3_x1qxro''),
      ws_dial = (\<lambda>u. True)\<rparr>"

definition test_state :: state where
  "test_state =
     \<lparr>clientID = ''clientID'', secret = ''secret'', username = ''username'',
      password = ''password'', userAgent = ''userAgent'', accessToken = [],
      calls = [], staged = []\<rparr>"

definition test_redirect :: string where
  "test_redirect = ''https://x/r/s/comments/x1qxro/title/''"

definition success_frame :: frame where
  "success_frame = Decoded ''success-message'' \<lparr>Type = ''success'', Redirect = test_redirect\<rparr>"

text \<open>The frame arrives, the listener checks the context, reads, and the waiter receives.\<close>

definition test_schedule :: "action list" where
  "test_schedule = [Arrive success_frame, Listen, Listen, SelectMsg]"

definition test_image :: PostImageRequest where
  "test_image =
     \<lparr>NSWF = False, Path = ''testdata/testimg.jpeg'', Resubmit = True, SendReplies = True,
      Spoiler = False, Subreddit = ''subreddit'', Title = ''image test''\<rparr>"

text \<open>
  Variations: a storage endpoint whose response has no Location element, a link server
  that does not have the thumbnail, and the video request that goes with it.
\<close>

definition no_location_env :: env where
  "no_location_env = test_env\<lparr>unmarshal_location := (\<lambda>b. Some [])\<rparr>"

definition thumbnail_404_env :: env where
  "thumbnail_404_env =
     test_env\<lparr>http_do := (\<lambda>r. if r = Get ''https://host/thumb.jpeg'' then Reply 404 []
                              else test_http r)\<rparr>"

definition test_video :: PostVideoRequest where
  "test_video =
     \<lparr>NSWF = False, Path = ''https://host/video.mp4'', Resubmit = True, SendReplies = True,
      Spoiler = False, Subreddit = ''subreddit'', Title = ''video test'',
      Kind = ''video'', ThumbnailPath = ''https://host/thumb.jpeg''\<rparr>"



section \<open>Facts about the library functions\<close>

lemma Split_nonempty: "Split s sep \<noteq> []"
  by (cases s) (auto split: list.splits)

lemma Split_append: "Split (xs @ sep # ys) sep = Split xs sep @ Split ys sep"
proof (induction xs)
  case Nil
  show ?case by simp
next
  case (Cons x xs)
  have "Split xs sep \<noteq> []" by (rule Split_nonempty)
  then obtain z zs where "Split xs sep = z # zs" by (cases "Split xs sep") auto
  with Cons show ?case by simp
qed

lemma Split_no_sep: "sep \<notin> set s \<Longrightarrow> Split s sep = [s]"
  by (induction s) auto

lemma redirect_split:
  assumes "CHR ''/'' \<notin> set ident" and "CHR ''/'' \<notin> set ttl"
  shows "Split (pre @ CHR ''/'' # ident @ CHR ''/'' # ttl @ ''/'') CHR ''/''
         = Split pre CHR ''/'' @ [ident, ttl, []]"
proof -
  have "Split (ttl @ ''/'') CHR ''/'' = [ttl, []]"
    using Split_append [of ttl "CHR ''/''" "[]"] assms(2) by (simp add: Split_no_sep)
  then have "Split (ident @ CHR ''/'' # ttl @ ''/'') CHR ''/'' = [ident, ttl, []]"
    using Split_append [of ident "CHR ''/''" "ttl @ ''/''"] assms(1) by (simp add: Split_no_sep)
  then show ?thesis
    using Split_append [of pre "CHR ''/''" "ident @ CHR ''/'' # ttl @ ''/''"] by simp
qed

lemma fullname_redirect:
  assumes "CHR ''/'' \<notin> set ident" and "CHR ''/'' \<notin> set ttl"
  shows "fullname tag (pre @ CHR ''/'' # ident @ CHR ''/'' # ttl @ ''/'') = Returns (tag @ ident)"
  using redirect_split [OF assms, of pre]
  by (simp add: fullname_def Let_def nth_append)

lemma fullname_Panics_iff:
  "fullname tag redirect = Panics \<longleftrightarrow> length (Split redirect CHR ''/'') < 3"
  by (simp add: fullname_def Let_def)

section \<open>The identifier of an image or video post\<close>

lemmas test_defs = test_env_def test_http_def test_state_def test_lease_def

lemmas waiter_defs = waitForPostSuccess_def ws_init_def listener_step_def select_msg_def
  select_done_def listen_def terminal_failure_def received_def zero_msg_def

lemmas upload_defs = stage_def isValidURL_def downloadLink_def uploadMedia_def
  upload_with_staging_def UploadAsset_def UploadAsset_unchecked_def transfer_def doRequest_def
  record_call_def os_Remove_def no_decode_def Base_def Ext_def mimeTypes_def Let_def

text \<open>
  \<^verbatim>\<open>SubmitPost\<close> on a redirect \<^verbatim>\<open>.../r/<sub>/comments/<id>/<title>/\<close>: when the submission
  request is accepted and the waiter returns such a redirect, the result is \<^verbatim>\<open>t3_<id>\<close>.
\<close>

lemma SubmitPost_redirect:
  assumes "doRequest w s (SubmitRequest (accessToken s) body) no_decode = (Inr ok, s1)"
    and "waitForPostSuccess p w sched s1 url
         = (Returns (pre @ ''/r/'' @ sub @ ''/comments/'' @ ident @ ''/'' @ ttl @ ''/''), s2)"
    and "CHR ''/'' \<notin> set ident" and "CHR ''/'' \<notin> set ttl"
  shows "SubmitPost p w sched s url body = (Returns (''t3_'' @ ident), s2)"
proof -
  have "fullname ''t3_'' ((pre @ ''/r/'' @ sub @ ''/comments'') @ CHR ''/'' # ident @ CHR ''/'' # ttl @ ''/'')
        = Returns (''t3_'' @ ident)"
    using assms(3,4) by (rule fullname_redirect)
  then show ?thesis using assms(1,2) by (simp add: SubmitPost_def)
qed

text \<open>
  The monolith's submission on the same redirects: the result is \<^verbatim>\<open>t3<id>\<close>, which is
  never \<^verbatim>\<open>t3_<id>\<close>.
\<close>

lemma submit_mono_redirect:
  assumes "doRequest w s (SubmitRequest (accessToken s) body) no_decode = (Inr ok, s1)"
    and "waitForPostSuccess TypeFailed w sched s1 url
         = (Returns (pre @ ''/r/'' @ sub @ ''/comments/'' @ ident @ ''/'' @ ttl @ ''/''), s2)"
    and "CHR ''/'' \<notin> set ident" and "CHR ''/'' \<notin> set ttl"
  shows "submit_mono w sched s url body = (Returns (''t3'' @ ident), s2)"
    and "submit_mono w sched s url body \<noteq> (Returns (''t3_'' @ ident), s2)"
proof -
  have "fullname ''t3'' ((pre @ ''/r/'' @ sub @ ''/comments'') @ CHR ''/'' # ident @ CHR ''/'' # ttl @ ''/'')
        = Returns (''t3'' @ ident)"
    using assms(3,4) by (rule fullname_redirect)
  then show r: "submit_mono w sched s url body = (Returns (''t3'' @ ident), s2)"
    using assms(1,2) by (simp add: submit_mono_def)
  have "length (''t3'' @ ident) \<noteq> length (''t3_'' @ ident)" by simp
  then have "''t3'' @ ident \<noteq> ''t3_'' @ ident" by metis
  with r show "submit_mono w sched s url body \<noteq> (Returns (''t3_'' @ ident), s2)" by simp
qed

text \<open>
  C1. The claim: for every completion redirect \<^verbatim>\<open>.../r/<sub>/comments/<id>/<title>/\<close> the
  image/video submission path returns \<^verbatim>\<open>t3_<id>\<close>, and the redirect
  \<^verbatim>\<open>https://x/r/s/comments/x1qxro/title/\<close> yields \<^verbatim>\<open>t3_x1qxro\<close>. \<^verbatim>\<open>SubmitPost\<close> does so
  (\<open>SubmitPost_redirect\<close>). The monolithic \<^verbatim>\<open>PostImage\<close> formats with \<^verbatim>\<open>"t3%s"\<close>: against
  the servers of the test suite, with that redirect in the success message, it returns
  \<^verbatim>\<open>t3x1qxro\<close>, without the underscore that the tests expect.
\<close>

theorem PostImage_mono_omits_underscore:
  "fst (PostImage_mono test_env test_schedule test_state test_image) = Returns ''t3x1qxro''"
  by (simp add: test_defs test_image_def test_schedule_def success_frame_def test_redirect_def
      PostImage_mono_def image_rest_def submit_mono_def SetToken_def upload_defs waiter_defs
      fullname_def)

text \<open>
  C5. The index \<^verbatim>\<open>len(split)-3\<close> is in range exactly when the redirect has at least three
  slash-separated components; with fewer the derivation panics. The empty redirect,
  which the waiter returns for an empty websocket address, has one component: once the
  submission request is accepted, \<^verbatim>\<open>SubmitPost\<close> and the monolith's submission both
  panic on it. The same holds for any redirect with fewer than three components that
  the waiter returns.
\<close>

theorem short_redirect_panics:
  "(fullname tag redirect = Panics \<longleftrightarrow> length (Split redirect CHR ''/'') < 3)
   \<and> (3 \<le> length (Split redirect CHR ''/'') \<longrightarrow>
        fullname tag redirect
        = Returns (tag @ Split redirect CHR ''/'' ! (length (Split redirect CHR ''/'') - 3)))
   \<and> (doRequest w s (SubmitRequest (accessToken s) body) no_decode = (Inr ok, s1) \<longrightarrow>
        SubmitPost p w sched s [] body = (Panics, s1)
        \<and> submit_mono w sched s [] body = (Panics, s1)
        \<and> (waitForPostSuccess p w sched s1 url = (Returns redirect, s2)
             \<and> length (Split redirect CHR ''/'') < 3 \<longrightarrow>
             SubmitPost p w sched s url body = (Panics, s2)))"
  by (simp add: fullname_def Let_def SubmitPost_def submit_mono_def waitForPostSuccess_def)

theorem short_redirect_panics_witness:
  "fullname ''t3_'' ''comments/x1qxro'' = Panics
   \<and> fullname ''t3_'' ''/x1qxro/title/'' = Returns ''t3_x1qxro''
   \<and> SubmitPost TypeNotSuccess test_env test_schedule test_state [] []
     = (Panics, record_call (Http (SubmitRequest [] [])) test_state)
   \<and> submit_mono test_env test_schedule test_state [] []
     = (Panics, record_call (Http (SubmitRequest [] [])) test_state)"
proof -
  have ok: "doRequest test_env test_state (SubmitRequest (accessToken test_state) []) no_decode
            = (Inr ([], ()), record_call (Http (SubmitRequest [] [])) test_state)"
    by (simp add: doRequest_def test_env_def test_http_def test_state_def no_decode_def
        record_call_def Let_def)
  have a: "length (Split ''comments/x1qxro'' CHR ''/'') < 3" by simp
  have b: "3 \<le> length (Split ''/x1qxro/title/'' CHR ''/'')" by simp
  show ?thesis
    using short_redirect_panics [of "''t3_''" "''comments/x1qxro''" test_env test_state "[]"
        "([], ())" "record_call (Http (SubmitRequest [] [])) test_state" TypeNotSuccess
        test_schedule "[]" "record_call (Http (SubmitRequest [] [])) test_state"]
      short_redirect_panics [of "''t3_''" "''/x1qxro/title/''" test_env test_state "[]"
        "([], ())" "record_call (Http (SubmitRequest [] [])) test_state" TypeNotSuccess
        test_schedule "[]" "record_call (Http (SubmitRequest [] [])) test_state"]
      ok a b
    by simp
qed

section \<open>The completion waiter\<close>

text \<open>
  Runs of the transition system: a run of two schedules one after the other, and the
  invariant rule.
\<close>

lemma exec_append: "exec p (xs @ ys) s = exec p ys (exec p xs s)"
  by (induction xs arbitrary: s) (auto split: option.splits)

lemma exec_invariant:
  assumes "\<And>a t t'. P t \<Longrightarrow> a \<in> set sched \<Longrightarrow> step p a t = Some t' \<Longrightarrow> P t'" and "P s"
  shows "P (exec p sched s)"
  using assms
proof (induction sched arbitrary: s)
  case Nil
  from Nil(2) show ?case by simp
next
  case (Cons a as)
  have st: "\<And>b t t'. P t \<Longrightarrow> b \<in> set as \<Longrightarrow> step p b t = Some t' \<Longrightarrow> P t'"
  proof -
    fix b t t' assume "P t" and "b \<in> set as" and "step p b t = Some t'"
    from \<open>b \<in> set as\<close> have "b \<in> set (a # as)" by simp
    with \<open>P t\<close> show "P t'" using \<open>step p b t = Some t'\<close> by (rule Cons.prems(1))
  qed
  show ?case
  proof (cases "step p a s")
    case None
    have "P (exec p as s)" using st Cons.prems(2) by (rule Cons.IH)
    with None show ?thesis by simp
  next
    case (Some t)
    have "a \<in> set (a # as)" by simp
    with Cons.prems(2) have "P t" using Some by (rule Cons.prems(1))
    with st have "P (exec p as t)" by (rule Cons.IH)
    with Some show ?thesis by simp
  qed
qed

lemma listener_step_frame:
  "listener_step p t = Some t' \<Longrightarrow>
   returned t' = returned t \<and> conn_closed t' = conn_closed t \<and> ctx_done t' = ctx_done t"
  unfolding listener_step_def
  by (cases "at t") (auto split: if_splits list.splits)

lemma select_msg_sets:
  "select_msg t = Some t' \<Longrightarrow> returned t = None \<and> returned t' \<noteq> None \<and> conn_closed t'
     \<and> ctx_done t' = ctx_done t"
  unfolding select_msg_def
  by (cases "at t") (auto split: if_splits)

lemma select_done_sets:
  "select_done t = Some t' \<Longrightarrow> returned t = None \<and> ctx_done t
     \<and> t' = t\<lparr>returned := Some (Inl ContextError), conn_closed := True\<rparr>"
  unfolding select_done_def
  by (auto split: if_splits)

lemma step_closes: "closes t \<Longrightarrow> step p a t = Some t' \<Longrightarrow> closes t'"
proof (cases a)
  case Cancel
  then show "closes t \<Longrightarrow> step p a t = Some t' \<Longrightarrow> closes t'" by (auto simp: closes_def)
next
  case (Arrive f)
  then show "closes t \<Longrightarrow> step p a t = Some t' \<Longrightarrow> closes t'" by (auto simp: closes_def)
next
  case Listen
  then show "closes t \<Longrightarrow> step p a t = Some t' \<Longrightarrow> closes t'"
    using listener_step_frame [of p t t'] by (simp add: closes_def)
next
  case SelectMsg
  then show "closes t \<Longrightarrow> step p a t = Some t' \<Longrightarrow> closes t'"
    using select_msg_sets [of t t'] by (simp add: closes_def)
next
  case SelectDone
  then show "closes t \<Longrightarrow> step p a t = Some t' \<Longrightarrow> closes t'"
    using select_done_sets [of t t'] by (simp add: closes_def)
qed

lemma waiter_closes_connection:
  assumes "returned (exec p sched ws_init) \<noteq> None"
  shows "conn_closed (exec p sched ws_init)"
proof -
  have init: "closes ws_init" by (simp add: closes_def ws_init_def)
  have "closes (exec p sched ws_init)"
    using step_closes init by (rule exec_invariant [where P = closes])
  then show ?thesis using assms by (simp add: closes_def)
qed


lemma step_idle:
  assumes "idle t" and "a \<noteq> Cancel" and "\<forall>f. a \<noteq> Arrive f" and "step p a t = Some t'"
  shows "idle t'"
proof (cases a)
  case Cancel
  with assms(2) show ?thesis by simp
next
  case (Arrive f)
  with assms(3) show ?thesis by simp
next
  case Listen
  with assms(1,4) show ?thesis
    by (cases "at t") (auto simp: idle_def listener_step_def)
next
  case SelectMsg
  with assms(1,4) show ?thesis
    by (cases "at t") (auto simp: idle_def select_msg_def)
next
  case SelectDone
  with assms(1,4) show ?thesis
    by (auto simp: idle_def select_done_def)
qed

lemma step_decided:
  assumes "decided p f t" and "a \<noteq> Cancel" and "step p a t = Some t'"
  shows "decided p f t'"
proof (cases a)
  case Cancel
  with assms(2) show ?thesis by simp
next
  case (Arrive g)
  with assms(1,3) show ?thesis by (auto simp: decided_def)
next
  case Listen
  with assms(1,3) show ?thesis
    by (cases "at t") (auto simp: decided_def listener_step_def split: if_splits list.splits)
next
  case SelectMsg
  with assms(1,3) show ?thesis
    by (cases "at t") (auto simp: decided_def select_msg_def split: if_splits)
next
  case SelectDone
  with assms(1,3) show ?thesis
    by (auto simp: decided_def select_done_def split: if_splits)
qed

lemma step_awaiting:
  assumes "awaiting t" and "\<forall>f. a \<noteq> Arrive f" and "step p a t = Some t'"
  shows "awaiting t'"
proof (cases a)
  case Cancel
  with assms(1,3) show ?thesis by (auto simp: awaiting_def)
next
  case (Arrive g)
  with assms(2) show ?thesis by simp
next
  case Listen
  with assms(1,3) show ?thesis
    by (cases "at t") (auto simp: awaiting_def listener_step_def listen_def split: if_splits list.splits)
next
  case SelectMsg
  with assms(1,3) show ?thesis
    by (cases "at t") (auto simp: awaiting_def select_msg_def split: if_splits)
next
  case SelectDone
  with assms(1,3) show ?thesis
    by (auto simp: awaiting_def select_done_def split: if_splits)
qed


lemma first_frame_decides:
  assumes "Cancel \<notin> set pre" and "\<forall>f. Arrive f \<notin> set pre" and "Cancel \<notin> set post"
  shows "returned (exec p (pre @ Arrive f # post) ws_init) = None
       \<or> returned (exec p (pre @ Arrive f # post) ws_init) = Some (received (fst (listen p f)))"
proof -
  have "idle ws_init" by (simp add: idle_def ws_init_def)
  have "idle (exec p pre ws_init)"
  proof (rule exec_invariant [where P = idle])
    show "idle ws_init" by fact
  next
    fix a t t' assume "idle t" and "a \<in> set pre" and "step p a t = Some t'"
    from \<open>a \<in> set pre\<close> assms(1,2) have "a \<noteq> Cancel" and "\<forall>f. a \<noteq> Arrive f" by auto
    with \<open>idle t\<close> show "idle t'" using \<open>step p a t = Some t'\<close> by (rule step_idle)
  qed
  then have "decided p f (exec p [Arrive f] (exec p pre ws_init))"
    by (simp add: idle_def decided_def)
  have "decided p f (exec p post (exec p [Arrive f] (exec p pre ws_init)))"
  proof (rule exec_invariant [where P = "decided p f"])
    show "decided p f (exec p [Arrive f] (exec p pre ws_init))" by fact
  next
    fix a t t' assume "decided p f t" and "a \<in> set post" and "step p a t = Some t'"
    from \<open>a \<in> set post\<close> assms(3) have "a \<noteq> Cancel" by auto
    with \<open>decided p f t\<close> show "decided p f t'" using \<open>step p a t = Some t'\<close>
      by (rule step_decided)
  qed
  then have "decided p f (exec p (pre @ Arrive f # post) ws_init)"
    by (simp add: exec_append)
  then show ?thesis unfolding decided_def by blast
qed

lemma standard_run:
  "returned (exec p [Arrive f, Listen, Listen, SelectMsg] ws_init) = Some (received (fst (listen p f)))"
  by (simp add: ws_init_def listener_step_def select_msg_def)

lemma step_answered:
  assumes "answered t" and "\<forall>f. a \<noteq> Arrive f" and "step p a t = Some t'"
  shows "answered t'"
proof -
  from assms have aw: "awaiting t'" unfolding answered_def using step_awaiting by blast
  have "returned t' \<noteq> None"
  proof (cases a)
    case Cancel
    with assms(1,3) show ?thesis by (auto simp: answered_def)
  next
    case (Arrive g)
    with assms(2) show ?thesis by simp
  next
    case Listen
    with assms(1,3) show ?thesis using listener_step_frame [of p t t'] by (simp add: answered_def)
  next
    case SelectMsg
    with assms(3) show ?thesis using select_msg_sets [of t t'] by simp
  next
    case SelectDone
    with assms(3) show ?thesis using select_done_sets [of t t'] by simp
  qed
  with aw show ?thesis unfolding answered_def awaiting_def by blast
qed

lemma awaiting_SelectDone:
  assumes "awaiting t" and "\<forall>f. Arrive f \<notin> set post" and "SelectDone \<in> set post"
  shows "answered (exec p post t)"
  using assms
proof (induction post arbitrary: t)
  case Nil
  then show ?case by simp
next
  case (Cons a as)
  from Cons.prems(2) have na: "\<forall>f. a \<noteq> Arrive f" and nas: "\<forall>f. Arrive f \<notin> set as" by auto
  have rest: "\<And>u. answered u \<Longrightarrow> answered (exec p as u)"
  proof -
    fix u assume "answered u"
    show "answered (exec p as u)"
    proof (rule exec_invariant [where P = answered])
      show "answered u" by fact
    next
      fix b v v' assume "answered v" and "b \<in> set as" and "step p b v = Some v'"
      from \<open>b \<in> set as\<close> nas have "\<forall>f. b \<noteq> Arrive f" by auto
      with \<open>answered v\<close> show "answered v'" using \<open>step p b v = Some v'\<close> by (rule step_answered)
    qed
  qed
  show ?case
  proof (cases "a = SelectDone")
    case True
    have "answered (exec p [SelectDone] t)"
      using Cons.prems(1) by (auto simp: answered_def awaiting_def select_done_def)
    then have "answered (exec p as (exec p [SelectDone] t))" by (rule rest)
    with True show ?thesis by (simp split: option.splits)
  next
    case False
    with Cons.prems(3) have in_as: "SelectDone \<in> set as" by simp
    show ?thesis
    proof (cases "step p a t")
      case None
      have "answered (exec p as t)" using Cons.prems(1) nas in_as by (rule Cons.IH)
      with None show ?thesis by simp
    next
      case (Some u)
      have "awaiting u" using Cons.prems(1) na Some by (rule step_awaiting)
      then have "answered (exec p as u)" using nas in_as by (rule Cons.IH)
      with Some show ?thesis by simp
    qed
  qed
qed


lemma step_in_read:
  assumes "in_read t" and "a \<noteq> Cancel" and "\<forall>f. a \<noteq> Arrive f" and "step p a t = Some t'"
  shows "in_read t'"
proof -
  from assms have "idle t'" unfolding in_read_def using step_idle by blast
  moreover have "at t' = Reading"
  proof (cases a)
    case Cancel
    with assms(2) show ?thesis by simp
  next
    case (Arrive g)
    with assms(3) show ?thesis by simp
  next
    case Listen
    with assms(1,4) show ?thesis by (auto simp: in_read_def idle_def listener_step_def)
  next
    case SelectMsg
    with assms(1,4) show ?thesis by (auto simp: in_read_def idle_def select_msg_def)
  next
    case SelectDone
    with assms(1,4) show ?thesis by (auto simp: in_read_def idle_def select_done_def)
  qed
  ultimately show ?thesis by (simp add: in_read_def)
qed

lemma cancelled_while_reading:
  assumes "Cancel \<notin> set pre1" and "Cancel \<notin> set pre2"
    and "\<forall>f. Arrive f \<notin> set pre1 \<union> set pre2 \<union> set post" and "SelectDone \<in> set post"
  shows "returned (exec p (pre1 @ Listen # pre2 @ Cancel # post) ws_init) = Some (Inl ContextError)"
proof -
  have "idle (exec p pre1 ws_init)"
  proof (rule exec_invariant [where P = idle])
    show "idle ws_init" by (simp add: idle_def ws_init_def)
  next
    fix a t t' assume "idle t" and "a \<in> set pre1" and "step p a t = Some t'"
    from \<open>a \<in> set pre1\<close> assms(1,3) have "a \<noteq> Cancel" and "\<forall>f. a \<noteq> Arrive f" by auto
    with \<open>idle t\<close> show "idle t'" using \<open>step p a t = Some t'\<close> by (rule step_idle)
  qed
  then have "in_read (exec p [Listen] (exec p pre1 ws_init))"
    by (cases "at (exec p pre1 ws_init)") (auto simp: in_read_def idle_def listener_step_def)
  have "in_read (exec p pre2 (exec p [Listen] (exec p pre1 ws_init)))"
  proof (rule exec_invariant [where P = in_read])
    show "in_read (exec p [Listen] (exec p pre1 ws_init))" by fact
  next
    fix a t t' assume "in_read t" and "a \<in> set pre2" and "step p a t = Some t'"
    from \<open>a \<in> set pre2\<close> assms(2,3) have "a \<noteq> Cancel" and "\<forall>f. a \<noteq> Arrive f" by auto
    with \<open>in_read t\<close> show "in_read t'" using \<open>step p a t = Some t'\<close> by (rule step_in_read)
  qed
  then have "awaiting (exec p [Cancel] (exec p pre2 (exec p [Listen] (exec p pre1 ws_init))))"
    by (simp add: in_read_def idle_def awaiting_def)
  moreover from assms(3) have "\<forall>f. Arrive f \<notin> set post" by simp
  ultimately have
    "answered (exec p post (exec p [Cancel] (exec p pre2 (exec p [Listen] (exec p pre1 ws_init)))))"
    using assms(4) by (rule awaiting_SelectDone)
  moreover have "pre1 @ Listen # pre2 @ Cancel # post = pre1 @ [Listen] @ pre2 @ [Cancel] @ post"
    by simp
  ultimately have "answered (exec p (pre1 @ Listen # pre2 @ Cancel # post) ws_init)"
    by (simp only: exec_append)
  then show ?thesis by (simp add: answered_def)
qed

text \<open>
  C9. With an empty completion-channel address the waiter returns the empty string and
  no error, whatever the version and the schedule; the state is unchanged, so nothing
  was dialled.
\<close>

theorem waitForPostSuccess_empty_address:
  "waitForPostSuccess p w sched s [] = (Returns [], s)
   \<and> calls (snd (waitForPostSuccess p w sched s [])) = calls s"
  by (simp add: waitForPostSuccess_def)

text \<open>
  C3, as amended. The first frame that arrives decides: in every schedule without a
  cancellation whose first frame decodes to \<open>wr\<close>, the waiter is still blocked or has
  returned the classification of \<open>wr\<close>, and in the schedule in which the listener reads
  the frame and the waiter receives, it has returned it. The classification is a
  terminal failure carrying the raw message when the listener's test holds, and the
  redirect otherwise; no decoded message is left unclassified. The test is
  \<^verbatim>\<open>Type == "failed" || Redirect == ""\<close> in the monolith and the first \<^verbatim>\<open>reddit\<close> type, and
  \<^verbatim>\<open>Type != "success" || Redirect == ""\<close> in the current \<^verbatim>\<open>reddit\<close> type, where only
  \<^verbatim>\<open>success\<close> with a redirect succeeds.
\<close>

theorem completion_message_classified:
  assumes "url \<noteq> []" and "ws_dial w url"
    and "Cancel \<notin> set pre" and "\<forall>f. Arrive f \<notin> set pre" and "Cancel \<notin> set post"
  shows "(fst (waitForPostSuccess p w (pre @ Arrive (Decoded m wr) # post) s url) = Blocks
          \<or> fst (waitForPostSuccess p w (pre @ Arrive (Decoded m wr) # post) s url)
            = (if terminal_failure p wr
               then Fails (Wrap ''waiting for media upload success'' (Message m))
               else Returns (Redirect wr)))
       \<and> fst (waitForPostSuccess p w [Arrive (Decoded m wr), Listen, Listen, SelectMsg] s url)
         = (if terminal_failure p wr
            then Fails (Wrap ''waiting for media upload success'' (Message m))
            else Returns (Redirect wr))
       \<and> (terminal_failure TypeFailed wr \<longleftrightarrow> Type wr = ''failed'' \<or> Redirect wr = [])
       \<and> (terminal_failure TypeNotSuccess wr \<longleftrightarrow> Type wr \<noteq> ''success'' \<or> Redirect wr = [])"
proof -
  have r: "received (fst (listen p (Decoded m wr)))
           = (if terminal_failure p wr
              then Inl (Wrap ''waiting for media upload success'' (Message m))
              else Inr (Redirect wr))"
    by (simp add: listen_def received_def)
  have "returned (exec p (pre @ Arrive (Decoded m wr) # post) ws_init) = None
        \<or> returned (exec p (pre @ Arrive (Decoded m wr) # post) ws_init)
          = Some (received (fst (listen p (Decoded m wr))))"
    using assms(3,4,5) by (rule first_frame_decides)
  then have a: "fst (waitForPostSuccess p w (pre @ Arrive (Decoded m wr) # post) s url) = Blocks
          \<or> fst (waitForPostSuccess p w (pre @ Arrive (Decoded m wr) # post) s url)
            = (if terminal_failure p wr
               then Fails (Wrap ''waiting for media upload success'' (Message m))
               else Returns (Redirect wr))"
    using assms(1,2) r by (auto simp: waitForPostSuccess_def Let_def)
  have b: "fst (waitForPostSuccess p w [Arrive (Decoded m wr), Listen, Listen, SelectMsg] s url)
         = (if terminal_failure p wr
            then Fails (Wrap ''waiting for media upload success'' (Message m))
            else Returns (Redirect wr))"
    using assms(1,2) standard_run [of p "Decoded m wr"] r
    by (simp add: waitForPostSuccess_def Let_def)
  have c: "terminal_failure TypeFailed wr \<longleftrightarrow> Type wr = ''failed'' \<or> Redirect wr = []"
    by (simp add: terminal_failure_def)
  have d: "terminal_failure TypeNotSuccess wr \<longleftrightarrow> Type wr \<noteq> ''success'' \<or> Redirect wr = []"
    by (simp add: terminal_failure_def)
  from a b c d show ?thesis by blast
qed

theorem completion_message_classified_witness:
  "fst (waitForPostSuccess TypeNotSuccess test_env
          [Listen, Arrive (Decoded ''success-message'' \<lparr>Type = ''success'', Redirect = test_redirect\<rparr>),
           Listen, SelectMsg] test_state ''wss://127.0.0.1:2'') \<in> {Blocks, Returns test_redirect}
   \<and> fst (waitForPostSuccess TypeNotSuccess test_env
          [Arrive (Decoded ''success-message'' \<lparr>Type = ''success'', Redirect = test_redirect\<rparr>),
           Listen, Listen, SelectMsg] test_state ''wss://127.0.0.1:2'') = Returns test_redirect
   \<and> terminal_failure TypeFailed \<lparr>Type = ''success'', Redirect = []\<rparr>"
proof -
  have u: "''wss://127.0.0.1:2'' \<noteq> []" by simp
  have d: "ws_dial test_env ''wss://127.0.0.1:2''" by (simp add: test_env_def)
  have a: "Cancel \<notin> set [Listen]" and b: "\<forall>f. Arrive f \<notin> set [Listen]"
    and c: "Cancel \<notin> set [Listen, SelectMsg]" by simp_all
  have t: "\<not> terminal_failure TypeNotSuccess \<lparr>Type = ''success'', Redirect = test_redirect\<rparr>"
    by (simp add: terminal_failure_def test_redirect_def)
  show ?thesis
    using completion_message_classified [OF u d a b c, of TypeNotSuccess "''success-message''"
        "\<lparr>Type = ''success'', Redirect = test_redirect\<rparr>" test_state]
      completion_message_classified [OF u d a b c, of TypeFailed "''success-message''"
        "\<lparr>Type = ''success'', Redirect = []\<rparr>" test_state] t
    by auto
qed

text \<open>
  C3 as stated fails on the current \<^verbatim>\<open>reddit\<close> type: a message of type \<^verbatim>\<open>pending\<close> (neither
  \<^verbatim>\<open>failed\<close> nor \<^verbatim>\<open>success\<close>) with a non-empty redirect is a terminal failure there, not
  a success.
\<close>

theorem other_type_with_redirect_counterexample:
  "''pending'' \<noteq> ''failed'' \<and> test_redirect \<noteq> []
   \<and> fst (waitForPostSuccess TypeNotSuccess test_env
          [Arrive (Decoded ''pending-message'' \<lparr>Type = ''pending'', Redirect = test_redirect\<rparr>),
           Listen, Listen, SelectMsg] test_state ''wss://127.0.0.1:2'')
     = Fails (Wrap ''waiting for media upload success'' (Message ''pending-message''))"
  by (simp add: waiter_defs test_defs test_redirect_def)

text \<open>
  C10. The claim: whenever the context is cancelled before a terminal message arrives,
  the waiter returns a cancellation error, and the connection is closed when it
  returns. The connection is closed on every return (\<open>waiter_closes_connection\<close>), and
  a cancellation that comes while the listener is blocked in its read makes the waiter
  return the context's error without any step of the listener
  (\<open>cancelled_while_reading\<close>). But when the cancellation comes before the listener's
  first \<^verbatim>\<open>ctx.Err()\<close> check (the dial does not take the context), the listener returns and
  its deferred \<^verbatim>\<open>close(msgCh)\<close> makes the \<^verbatim>\<open>msgCh\<close> case of the \<^verbatim>\<open>select\<close> ready beside the
  \<^verbatim>\<open>ctx.Done()\<close> case; the receive yields the zero message, and the waiter returns the
  empty string and no error. The three steps are enabled one after the other, and
  \<^verbatim>\<open>SubmitPost\<close> then panics on the empty redirect.
\<close>

theorem cancel_before_check_returns_empty:
  "step TypeNotSuccess Cancel ws_init = Some (ws_init\<lparr>ctx_done := True\<rparr>)
   \<and> step TypeNotSuccess Listen (ws_init\<lparr>ctx_done := True\<rparr>)
     = Some (ws_init\<lparr>ctx_done := True, at := Finished, chan_closed := True\<rparr>)
   \<and> step TypeNotSuccess SelectMsg (ws_init\<lparr>ctx_done := True, at := Finished, chan_closed := True\<rparr>)
     = Some (ws_init\<lparr>ctx_done := True, at := Finished, chan_closed := True,
                     returned := Some (Inr []), conn_closed := True\<rparr>)
   \<and> fst (waitForPostSuccess TypeNotSuccess test_env [Cancel, Listen, SelectMsg] test_state
          ''wss://127.0.0.1:2'') = Returns []
   \<and> fst (waitForPostSuccess TypeFailed test_env [Cancel, Listen, SelectMsg] test_state
          ''wss://127.0.0.1:2'') = Returns []
   \<and> fst (SubmitPost TypeNotSuccess test_env [Cancel, Listen, SelectMsg] test_state
          ''wss://127.0.0.1:2'' []) = Panics"
  by (simp add: waiter_defs test_defs SubmitPost_def doRequest_def no_decode_def record_call_def
      fullname_def Let_def)

section \<open>Token acquisition\<close>




section \<open>Uploading: effects on the log and on the staged files\<close>

lemma doRequest_answer: "doRequest w s r u = (answer w r u, record_call (Http r) s)"
  by (simp add: doRequest_def answer_def Let_def split: reply.splits option.splits)

lemma doRequest_snd: "snd (doRequest w s r u) = record_call (Http r) s"
  by (simp add: doRequest_def Let_def split: reply.splits option.splits)

lemma doRequest_fst: "fst (doRequest w s r u) = fst (doRequest w s' r u)"
  by (simp add: doRequest_def Let_def split: reply.splits option.splits)

lemma transfer_staged: "staged (snd (transfer c w s path assetPath)) = staged s"
  by (simp add: transfer_def doRequest_answer record_call_def Let_def
      split: option.splits sum.splits prod.splits)


lemma downloadLink_staged:
  "fst (downloadLink w s link) = Inr name \<Longrightarrow> staged (snd (downloadLink w s link)) = name # staged s"
  by (auto simp: downloadLink_def record_call_def Let_def split: reply.splits option.splits if_splits)




text \<open>
  \<^verbatim>\<open>UploadAsset\<close> (both versions) leaves no staged file behind: when the source is not a
  URL nothing is staged, and when the download succeeded the deferred removal runs on
  every return.
\<close>

lemma UploadAsset_removes_staged:
  assumes "\<not> isValidURL w path \<or> (\<exists>name. fst (downloadLink w s path) = Inr name)"
  shows "staged (snd (upload_with_staging c w s path)) = staged s"
proof (cases "isValidURL w path")
  case False
  then show ?thesis by (simp add: upload_with_staging_def transfer_staged)
next
  case True
  with assms obtain name where n: "fst (downloadLink w s path) = Inr name" by blast
  obtain s1 where d: "downloadLink w s path = (Inr name, s1)"
    using n by (cases "downloadLink w s path") auto
  have "staged s1 = name # staged s" using downloadLink_staged [OF n] d by simp
  then show ?thesis using True d
    by (simp add: upload_with_staging_def os_Remove_def transfer_staged case_prod_beta)
qed

text \<open>The current \<^verbatim>\<open>UploadAsset\<close> never succeeds with an empty Location.\<close>

lemma transfer_checked_Location:
  "fst (transfer True w s path assetPath) = Inr a \<Longrightarrow> Location a \<noteq> []"
  by (auto simp: transfer_def doRequest_answer record_call_def Let_def
      split: option.splits sum.splits prod.splits if_splits)

lemma UploadAsset_Location: "fst (UploadAsset w s path) = Inr a \<Longrightarrow> Location a \<noteq> []"
  by (auto simp: UploadAsset_def upload_with_staging_def case_prod_beta
      dest: transfer_checked_Location split: if_splits sum.splits)

text \<open>
  C4. The claim: a storage response with a success status and a missing or empty
  Location makes the upload fail. The current \<^verbatim>\<open>UploadAsset\<close> does so (the last
  conjunct, and \<open>UploadAsset_Location\<close>). The monolith's \<^verbatim>\<open>uploadMedia\<close> and the first
  \<^verbatim>\<open>UploadAsset\<close> decode the XML and return what they found: on a 201 response without a
  Location they succeed with an empty storage URL.
\<close>

theorem unchecked_upload_accepts_empty_location:
  "http_do no_location_env (UploadRequest ''https://127.0.0.1:1'' [(''name'', ''value'')] ''testimg.jpeg'')
     = Reply 201 ''location-body''
   \<and> unmarshal_location no_location_env ''location-body'' = Some []
   \<and> fst (uploadMedia no_location_env test_state ''testdata/testimg.jpeg'')
     = Inr \<lparr>ID = ''123'', Location = [], WebSocket = ''wss://127.0.0.1:2''\<rparr>
   \<and> fst (UploadAsset_unchecked no_location_env test_state ''testdata/testimg.jpeg'')
     = Inr \<lparr>ID = ''123'', Location = [], WebSocket = ''wss://127.0.0.1:2''\<rparr>
   \<and> fst (UploadAsset no_location_env test_state ''testdata/testimg.jpeg'')
     = Inl (Wrap ''uploading asset to lease'' (Message ''location-body''))"
  by (simp add: no_location_env_def test_defs upload_defs)

text \<open>
  C7. The claim: a staged file is removed on every exit path. \<^verbatim>\<open>UploadAsset\<close> does so
  (\<open>UploadAsset_removes_staged\<close>). The monolith's \<^verbatim>\<open>PostVideo\<close> registers its deferred
  removals after both downloads: when the video was staged and the thumbnail's download
  fails, it returns before them and the staged video stays.
\<close>

theorem PostVideo_mono_leaves_staged_video:
  "fst (PostVideo_mono thumbnail_404_env test_schedule test_state test_video)
     = Fails (Wrap ''downloading https://host/video.mp4'' (UnexpectedStatus 404))
   \<and> staged (snd (PostVideo_mono thumbnail_404_env test_schedule test_state test_video))
     = [''/tmp/redmed1.mp4'']"
  by (simp add: thumbnail_404_env_def test_video_def test_defs PostVideo_mono_def SetToken_def
      upload_defs)

section \<open>The declared content type\<close>










section \<open>The gallery: all uploads, then one submission\<close>














end
